theory Spec2Isabelle
  imports Complex_Main
begin

section \<open>Data model\<close>

text \<open>
  The program (src/main.py) reads (id, url) pairs from a CSV file, splits them into
  batches, and runs \<open>scrape_urls\<close> on every batch in a thread pool. Each batch appends
  to two CSV files and to the log, and bumps a global counter.

  Text is a \<open>string\<close> in which every \<open>char\<close> stands for one code point (code points
  below 256), so that \<open>length\<close> is Python's \<open>len\<close>.
\<close>

type_synonym work_item = "int \<times> string"

type_synonym outcome = "int \<times> string option"

text \<open>A CSV row is the list of Python values handed to \<open>writer.writerow\<close>; the
  encoding of a row as text is not modelled.\<close>

datatype cell = CInt int | CStr string | CNone

type_synonym csv_row = "cell list"

text \<open>The exceptions that can leave a function of the program.\<close>

datatype pyexn = ZeroDivisionError | OSError string

text \<open>One constructor per \<open>logging\<close> call of the source.\<close>

datatype log_entry =
    InfoScraped int string
  | WarnNoDescription int string
  | ErrorScraping string int string
  | InfoProgress nat nat int
  | InfoAllScraped
  | InfoSaved int
  | ErrorSaving "int list" string
  | InfoLoggedError int
  | ErrorRowNotInt "string list"
  | ErrorRowColumns "string list"
  | InfoRead nat
  | InfoInitiated
  | ErrorMain string

text \<open>
  The module's globals and the files it writes. \<open>scraped_count\<close> and \<open>total_urls\<close>
  are natural numbers: the first starts at 0 and is only ever changed by \<open>+= 1\<close>, the
  second is 0 or a \<open>len\<close>.
\<close>

record shared =
  scraped_count :: nat
  total_urls :: nat
  result_file :: "csv_row list"
  error_file :: "csv_row list"
  log :: "log_entry list"

text \<open>
  What lines 74-80 give for one item: an exception raised by \<open>requests.get\<close>,
  \<open>raise_for_status\<close> or the parser, with its message, or the page, as the text of the
  \<open>div\<close> that \<open>soup.find\<close> returns (\<open>None\<close> when there is no such \<open>div\<close>).
\<close>

datatype response = Raises string | Page "string option"

text \<open>
  A float is written as the real number it stands for. What the machine gives for a
  float divided by an integer and for a float times an integer, rounded as it rounds,
  is not computed here but taken from the world. Both are taken to be finite, and the
  estimate to be within the range of \<open>timedelta\<close>.
\<close>

record float_ops =
  float_div :: "real \<Rightarrow> nat \<Rightarrow> real"
  float_mul :: "real \<Rightarrow> int \<Rightarrow> real"

text \<open>
  The world outside the program, as the answers it gives. Items are addressed by the
  number of their batch and their position in it. \<open>Some m\<close> for a file means that
  opening it raises \<open>OSError\<close> with message \<open>m\<close>. \<open>clock\<close> is the reading of
  \<open>timeit.default_timer() - start_time\<close> in the \<open>finally\<close> block, and \<open>floats\<close> the
  arithmetic of the machine.
\<close>

record env =
  fetch :: "nat \<Rightarrow> nat \<Rightarrow> response"
  error_sink_io :: "nat \<Rightarrow> nat \<Rightarrow> string option"
  result_sink_io :: "nat \<Rightarrow> string option"
  header_io :: "string option"
  clock :: "nat \<Rightarrow> nat \<Rightarrow> real"
  floats :: float_ops

definition MAX_WORKERS :: nat where
  "MAX_WORKERS = 128"

section \<open>Strings and integers of Python\<close>

text \<open>\<open>str.isspace\<close> on the code points below 256.\<close>

definition isspace :: "char \<Rightarrow> bool" where
  "isspace c = ((of_char c :: nat) \<in> {9, 10, 11, 12, 13, 28, 29, 30, 31, 32, 133, 160})"

definition strip :: "string \<Rightarrow> string" where
  "strip s = rev (dropWhile isspace (rev (dropWhile isspace s)))"

definition isdigit :: "char \<Rightarrow> bool" where
  "isdigit c = (48 \<le> (of_char c :: nat) \<and> (of_char c :: nat) \<le> 57)"

definition digit_val :: "char \<Rightarrow> nat" where
  "digit_val c = of_char c - 48"

text \<open>The digits after the first one: a digit, or an underscore followed by a digit.\<close>

fun py_digits :: "nat \<Rightarrow> string \<Rightarrow> nat option" where
  "py_digits acc [] = Some acc"
| "py_digits acc [c] = (if isdigit c then Some (acc * 10 + digit_val c) else None)"
| "py_digits acc (c # d # cs) =
     (if isdigit c then py_digits (acc * 10 + digit_val c) (d # cs)
      else if c = CHR ''_'' \<and> isdigit d then py_digits (acc * 10 + digit_val d) cs
      else None)"

text \<open>
  The blanks that \<open>int\<close> drops around a number: the six of ASCII, and the two other
  blanks below 256. The separators U+001C to U+001F, which \<open>str.strip\<close> drops, are
  not among them.
\<close>

definition int_space :: "char \<Rightarrow> bool" where
  "int_space c = ((of_char c :: nat) \<in> {9, 10, 11, 12, 13, 32, 133, 160})"

definition int_strip :: "string \<Rightarrow> string" where
  "int_strip s = rev (dropWhile int_space (rev (dropWhile int_space s)))"

text \<open>The interpreter's limit on the digits of a decimal string, as it is set by default.\<close>

definition max_str_digits :: nat where
  "max_str_digits = 4300"

text \<open>
  \<open>int(s)\<close> for a string: surrounding blanks are dropped, then an optional sign and
  decimal digits, no more than the limit. \<open>None\<close> is \<open>ValueError\<close>.
\<close>

definition py_int :: "string \<Rightarrow> int option" where
  "py_int s =
     (let t = int_strip s;
          neg = (case t of [] \<Rightarrow> False | c # r \<Rightarrow> c = CHR ''-'');
          body = (case t of [] \<Rightarrow> []
                  | c # r \<Rightarrow> if c = CHR ''-'' \<or> c = CHR ''+'' then r else t)
      in case body of
           [] \<Rightarrow> None
         | c # r \<Rightarrow>
             if isdigit c \<and> length (filter isdigit body) \<le> max_str_digits
             then map_option (\<lambda>v. if neg then - int v else int v) (py_digits (digit_val c) r)
             else None)"

text \<open>\<open>int(x)\<close> for a float: truncation towards zero.\<close>

definition int_of_float :: "real \<Rightarrow> int" where
  "int_of_float x = (if 0 \<le> x then \<lfloor>x\<rfloor> else \<lceil>x\<rceil>)"

text \<open>\<open>xs[a:b]\<close>: a negative index counts from the end, and both ends are clamped.\<close>

definition slice_index :: "nat \<Rightarrow> int \<Rightarrow> nat" where
  "slice_index len i = (if i < 0 then nat (max 0 (i + int len)) else min (nat i) len)"

definition py_slice :: "'a list \<Rightarrow> int \<Rightarrow> int \<Rightarrow> 'a list" where
  "py_slice xs a b =
     (let lo = slice_index (length xs) a; hi = slice_index (length xs) b
      in take (hi - lo) (drop lo xs))"

definition py_range :: "int \<Rightarrow> int list" where
  "py_range n = map int [0..<nat n]"

section \<open>The sinks\<close>

definition outcome_row :: "outcome \<Rightarrow> csv_row" where
  "outcome_row r = [CInt (fst r), (case snd r of None \<Rightarrow> CNone | Some d \<Rightarrow> CStr d)]"

text \<open>
  \<open>save_to_csv\<close> (lines 116-133): the whole body is inside \<open>try\<close>, so a failure to open
  the file is logged and the function returns.
\<close>

definition save_to_csv :: "string option \<Rightarrow> outcome list \<Rightarrow> shared \<Rightarrow> shared" where
  "save_to_csv io data sh =
     (case io of
        None \<Rightarrow>
          sh\<lparr>result_file := result_file sh @ map outcome_row data,
             log := log sh @ map (\<lambda>row. InfoSaved (fst row)) data\<rparr>
      | Some m \<Rightarrow> sh\<lparr>log := log sh @ [ErrorSaving (map fst data) m]\<rparr>)"

text \<open>
  \<open>log_error_to_csv\<close> (lines 136-150) has no \<open>try\<close>: a failure to open the file leaves
  the function as an exception.
\<close>

definition log_error_to_csv ::
  "string option \<Rightarrow> int \<Rightarrow> string \<Rightarrow> string \<Rightarrow> shared \<Rightarrow> pyexn + shared" where
  "log_error_to_csv io book_id url error_message sh =
     (case io of
        None \<Rightarrow>
          Inr (sh\<lparr>error_file := error_file sh @ [[CInt book_id, CStr url, CStr error_message]],
                  log := log sh @ [InfoLoggedError book_id]\<rparr>)
      | Some m \<Rightarrow> Inl (OSError m))"

section \<open>The batch worker\<close>

text \<open>
  The \<open>finally\<close> block (lines 97-111), run under \<open>lock_count\<close>. The counter has just
  been incremented when the average is taken, so the guard \<open>if scraped_count\<close> of
  line 102 holds and the average is the quotient. The quotient and the product are
  those of the floats \<open>fl\<close>.
\<close>

definition update_progress :: "float_ops \<Rightarrow> real \<Rightarrow> shared \<Rightarrow> shared" where
  "update_progress fl elapsed_time sh =
     (let c = scraped_count sh + 1;
          sh1 = sh\<lparr>scraped_count := c\<rparr>;
          sh2 = (if c mod 10 = 0
                 then (let remaining_urls = int (total_urls sh1) - int c;
                           avg_time_per_url = float_div fl elapsed_time c;
                           approx_time_left = float_mul fl avg_time_per_url remaining_urls
                       in sh1\<lparr>log := log sh1 @
                                [InfoProgress c (total_urls sh1) (int_of_float approx_time_left)]\<rparr>)
                 else sh1)
      in if c = total_urls sh2 then sh2\<lparr>log := log sh2 @ [InfoAllScraped]\<rparr> else sh2)"

text \<open>
  The \<open>try\<close> and \<open>except\<close> blocks of one iteration (lines 73-95). The result is the
  exception still pending when the \<open>finally\<close> block is entered, the list \<open>results\<close>,
  and the state.
\<close>

definition try_item ::
  "response \<Rightarrow> string option \<Rightarrow> work_item \<Rightarrow> outcome list \<Rightarrow> shared
     \<Rightarrow> pyexn option \<times> outcome list \<times> shared" where
  "try_item resp eio row results sh =
     (let book_id = fst row; url = snd row
      in case resp of
           Page (Some text) \<Rightarrow>
             (let description = strip text;
                  sh1 = sh\<lparr>log := log sh @ [InfoScraped book_id url]\<rparr>;
                  description' = (if length description < 10 then None else Some description)
              in (None, results @ [(book_id, description')], sh1))
         | Page None \<Rightarrow>
             (None, results @ [(book_id, None)],
              sh\<lparr>log := log sh @ [WarnNoDescription book_id url]\<rparr>)
         | Raises e \<Rightarrow>
             (let sh1 = sh\<lparr>log := log sh @ [ErrorScraping url book_id e]\<rparr>;
                  results1 = results @ [(book_id, None)]
              in case log_error_to_csv eio book_id url e sh1 of
                   Inl x \<Rightarrow> (Some x, results1, sh1)
                 | Inr sh2 \<Rightarrow> (None, results1, sh2)))"

text \<open>One iteration of the loop of \<open>scrape_urls\<close>: \<open>try\<close>, \<open>except\<close>, \<open>finally\<close>.\<close>

definition scrape_item ::
  "response \<Rightarrow> string option \<Rightarrow> float_ops \<Rightarrow> real \<Rightarrow> work_item \<Rightarrow> outcome list \<Rightarrow> shared
     \<Rightarrow> pyexn option \<times> outcome list \<times> shared" where
  "scrape_item resp eio fl elapsed_time row results sh =
     (case try_item resp eio row results sh of
        (pending, results1, sh1) \<Rightarrow> (pending, results1, update_progress fl elapsed_time sh1))"

text \<open>
  The loop (lines 71-111) of batch number \<open>b\<close>, from position \<open>i\<close> on. An exception
  pending after the \<open>finally\<close> block ends the loop and the function.
\<close>

fun scrape_loop ::
  "env \<Rightarrow> nat \<Rightarrow> nat \<Rightarrow> work_item list \<Rightarrow> outcome list \<Rightarrow> shared
     \<Rightarrow> (pyexn + outcome list) \<times> shared" where
  "scrape_loop w b i [] results sh = (Inr results, sh)"
| "scrape_loop w b i (row # rest) results sh =
     (case scrape_item (fetch w b i) (error_sink_io w b i) (floats w) (clock w b i) row results sh of
        (Some e, results1, sh1) \<Rightarrow> (Inl e, sh1)
      | (None, results1, sh1) \<Rightarrow> scrape_loop w b (Suc i) rest results1 sh1)"

definition scrape_urls ::
  "env \<Rightarrow> nat \<Rightarrow> work_item list \<Rightarrow> shared \<Rightarrow> (pyexn + string) \<times> shared" where
  "scrape_urls w b data sh =
     (case scrape_loop w b 0 data [] sh of
        (Inl e, sh1) \<Rightarrow> (Inl e, sh1)
      | (Inr results, sh1) \<Rightarrow>
          (Inr ''Scraping complete'', save_to_csv (result_sink_io w b) results sh1))"

section \<open>Partitioning and reading the input\<close>

definition chunk_data :: "'a list \<Rightarrow> int \<Rightarrow> pyexn + 'a list list" where
  "chunk_data data n =
     (if n = 0 then Inl ZeroDivisionError
      else (let k = int (length data) div n; m = int (length data) mod n
            in Inr (map (\<lambda>i. py_slice data (i * k + min i m) ((i + 1) * k + min (i + 1) m))
                      (py_range n))))"

text \<open>
  One row of the reader (lines 184-189). \<open>int(row[1])\<close> is evaluated before \<open>row[2]\<close>,
  so a short row whose second field is not an integer is reported as such.
\<close>

definition parse_row :: "string list \<Rightarrow> log_entry + work_item" where
  "parse_row row =
     (if length row \<le> 1 then Inl (ErrorRowColumns row)
      else case py_int (row ! 1) of
             None \<Rightarrow> Inl (ErrorRowNotInt row)
           | Some book_id \<Rightarrow>
               if length row \<le> 2 then Inl (ErrorRowColumns row)
               else Inr (book_id, row ! 2))"

fun read_rows :: "string list list \<Rightarrow> work_item list \<Rightarrow> shared \<Rightarrow> work_item list \<times> shared" where
  "read_rows [] id_url_pairs sh = (id_url_pairs, sh)"
| "read_rows (row # rows) id_url_pairs sh =
     (case parse_row row of
        Inr p \<Rightarrow> read_rows rows (id_url_pairs @ [p]) sh
      | Inl msg \<Rightarrow> read_rows rows id_url_pairs (sh\<lparr>log := log sh @ [msg]\<rparr>))"

text \<open>\<open>int(math.sqrt(len(id_url_pairs) * MAX_WORKERS) * 2)\<close>, with the square root of
  the reals in place of the one of the floats.\<close>

definition num_chunks :: "nat \<Rightarrow> int" where
  "num_chunks len = int_of_float (sqrt (real (len * MAX_WORKERS)) * 2)"

text \<open>
  \<open>read_id_url_pairs_from_csv\<close> (lines 168-194). The input is the list of rows the CSV
  reader yields, or the message of the \<open>OSError\<close> when the file cannot be opened.
\<close>

definition read_id_url_pairs_from_csv ::
  "string + string list list \<Rightarrow> shared \<Rightarrow> (pyexn + work_item list list) \<times> shared" where
  "read_id_url_pairs_from_csv input sh =
     (case input of
        Inl m \<Rightarrow> (Inl (OSError m), sh)
      | Inr rows \<Rightarrow>
          (case read_rows rows [] sh of
             (id_url_pairs, sh1) \<Rightarrow>
               (let sh2 = sh1\<lparr>log := log sh1 @ [InfoRead (length id_url_pairs)]\<rparr>;
                    sh3 = sh2\<lparr>total_urls := length id_url_pairs\<rparr>
                in (chunk_data id_url_pairs (num_chunks (length id_url_pairs)), sh3))))"

section \<open>The main function\<close>

definition header_row :: csv_row where
  "header_row = [CStr ''ID'', CStr ''Description'']"

text \<open>Lines 216-219, once the file is open: \<open>file.tell() == 0\<close> holds on an empty file.\<close>

definition write_header :: "shared \<Rightarrow> shared" where
  "write_header sh =
     (if result_file sh = [] then sh\<lparr>result_file := result_file sh @ [header_row]\<rparr> else sh)"

text \<open>
  The pool, for the schedule that runs the submitted batches one after the other in the
  order of submission: the schedule of \<open>max_workers = 1\<close>. An exception of a batch stays
  in its future, which nobody reads.
\<close>

fun run_batches :: "env \<Rightarrow> nat \<Rightarrow> work_item list list \<Rightarrow> shared \<Rightarrow> shared" where
  "run_batches w b [] sh = sh"
| "run_batches w b (data # rest) sh = run_batches w (Suc b) rest (snd (scrape_urls w b data sh))"

text \<open>
  \<open>main\<close> (lines 205-225). The result is the exception that leaves \<open>main\<close>, if any.
  The constructor of the pool raises \<open>ValueError\<close> for \<open>max_workers \<le> 0\<close>, inside the
  \<open>try\<close>.
\<close>

definition main :: "env \<Rightarrow> string + string list list \<Rightarrow> int \<Rightarrow> shared \<Rightarrow> pyexn option \<times> shared" where
  "main w input max_workers sh =
     (case read_id_url_pairs_from_csv input sh of
        (Inl e, sh1) \<Rightarrow> (Some e, sh1)
      | (Inr id_url_pairs, sh1) \<Rightarrow>
          (case header_io w of
             Some m \<Rightarrow> (None, sh1\<lparr>log := log sh1 @ [ErrorMain m]\<rparr>)
           | None \<Rightarrow>
               (let sh2 = write_header sh1
                in if max_workers \<le> 0
                   then (None, sh2\<lparr>log := log sh2 @
                                  [ErrorMain ''max_workers must be greater than 0'']\<rparr>)
                   else (None, run_batches w 0 id_url_pairs
                                 (sh2\<lparr>log := log sh2 @ [InfoInitiated]\<rparr>)))))"

text \<open>The globals as the module sets them (lines 31-33), with the files as found.\<close>

definition initial :: "csv_row list \<Rightarrow> csv_row list \<Rightarrow> shared" where
  "initial results errors =
     \<lparr>scraped_count = 0, total_urls = 0, result_file = results, error_file = errors, log = []\<rparr>"

section \<open>Vocabulary of the properties\<close>

text \<open>Where batch number \<open>i\<close> starts, for quotient \<open>k\<close> and remainder \<open>m\<close>.\<close>

definition chunk_start :: "nat \<Rightarrow> nat \<Rightarrow> nat \<Rightarrow> nat" where
  "chunk_start k m i = i * k + min i m"

text \<open>
  What the reader keeps of a row, in the words of the claim: the second field as the
  id and the third as the url, for a row of three fields or more whose second field is
  an integer.
\<close>

definition second_and_third_column :: "string list \<Rightarrow> work_item option" where
  "second_and_third_column row =
     (if length row < 3 then None
      else map_option (\<lambda>book_id. (book_id, row ! 2)) (py_int (row ! 1)))"


text \<open>The entry of \<open>results\<close> for an item, and the rows of the error file for it.\<close>

definition item_outcome :: "response \<Rightarrow> work_item \<Rightarrow> outcome" where
  "item_outcome resp row =
     (fst row,
      case resp of
        Page (Some text) \<Rightarrow> if length (strip text) < 10 then None else Some (strip text)
      | Page None \<Rightarrow> None
      | Raises e \<Rightarrow> None)"

definition item_error_rows :: "response \<Rightarrow> work_item \<Rightarrow> csv_row list" where
  "item_error_rows resp row =
     (case resp of
        Raises e \<Rightarrow> [[CInt (fst row), CStr (snd row), CStr e]]
      | Page p \<Rightarrow> [])"




section \<open>Sample worlds\<close>

text \<open>
  Quotient and product without rounding: what the machine gives wherever the exact
  quotient and product are floats, as they are in the runs below (0 / n, 0 * k,
  45 / 10 and 4.5 * 20).
\<close>

definition sample_floats :: float_ops where
  "sample_floats =
     \<lparr>float_div = (\<lambda>x n. x / real n), float_mul = (\<lambda>x k. x * real_of_int k)\<rparr>"


text \<open>
  The example of the specification: the first item has a long description, the fetch
  of the second times out, the third has a short description.
\<close>

definition spec_example_env :: env where
  "spec_example_env =
     \<lparr>fetch = (\<lambda>b i. if i = 0
                      then Page (Some ''  The tale of two brothers and of the sea between them. '')
                      else if i = 1 then Raises ''timeout''
                      else Page (Some '' short '')),
      error_sink_io = (\<lambda>b i. None),
      result_sink_io = (\<lambda>b. None),
      header_io = None,
      clock = (\<lambda>b i. 0),
      floats = sample_floats\<rparr>"


text \<open>
  The fetch of item \<open>k\<close> of batch 0 times out, and the error file cannot be opened
  when that item is to be recorded. Every other page is fetched, without description.
\<close>

definition error_sink_down_at :: "nat \<Rightarrow> env" where
  "error_sink_down_at k =
     \<lparr>fetch = (\<lambda>b i. if b = 0 \<and> i = k then Raises ''timeout'' else Page None),
      error_sink_io = (\<lambda>b i. if b = 0 \<and> i = k then Some ''disk full'' else None),
      result_sink_io = (\<lambda>b. None),
      header_io = None,
      clock = (\<lambda>b i. 0),
      floats = sample_floats\<rparr>"

section \<open>Partitioning\<close>

lemma py_slice_nat:
  "a \<le> b \<Longrightarrow> b \<le> length xs \<Longrightarrow> py_slice xs (int a) (int b) = take (b - a) (drop a xs)"
  by (simp add: py_slice_def slice_index_def)

lemma chunk_start_0: "chunk_start k m 0 = 0"
  by (simp add: chunk_start_def)

lemma chunk_start_mono: "chunk_start k m i \<le> chunk_start k m (Suc i)"
  by (simp add: chunk_start_def)

lemma chunk_start_step:
  "chunk_start k m (Suc i) - chunk_start k m i = (if i < m then k + 1 else k)"
  by (simp add: chunk_start_def min_def)

lemma chunk_start_last:
  assumes "0 < N"
  shows "chunk_start (len div N) (len mod N) N = len"
proof -
  have "len mod N < N" using assms by simp
  then have "min N (len mod N) = len mod N" by simp
  then show ?thesis by (simp add: chunk_start_def)
qed

lemma chunk_start_bound:
  assumes "i < N"
  shows "chunk_start (len div N) (len mod N) (Suc i) \<le> len"
proof -
  have "Suc i \<le> N" using assms by simp
  then have "Suc i * (len div N) \<le> N * (len div N)" by (rule mult_le_mono1)
  moreover have "min (Suc i) (len mod N) \<le> len mod N" by simp
  ultimately have "Suc i * (len div N) + min (Suc i) (len mod N) \<le> N * (len div N) + len mod N"
    by linarith
  then show ?thesis by (simp add: chunk_start_def)
qed

text \<open>
  Consecutive slices of a list, put back together.
\<close>

lemma concat_slices:
  assumes "\<And>i. i < N \<Longrightarrow> f i \<le> f (Suc i)"
  shows "concat (map (\<lambda>i. take (f (Suc i) - f i) (drop (f i) xs)) [0..<N])
           = take (f N - f 0) (drop (f 0) xs)"
  using assms
proof (induction N)
  case 0
  then show ?case by simp
next
  case (Suc N)
  have mono: "f 0 \<le> f N" using Suc.prems
  proof (induction N)
    case 0
    then show ?case by simp
  next
    case (Suc M)
    then have "f 0 \<le> f M" by simp
    moreover have "f M \<le> f (Suc M)" using Suc.prems by simp
    ultimately show ?case by simp
  qed
  have step: "f N \<le> f (Suc N)" using Suc.prems by simp
  have "concat (map (\<lambda>i. take (f (Suc i) - f i) (drop (f i) xs)) [0..<Suc N])
      = take (f N - f 0) (drop (f 0) xs) @ take (f (Suc N) - f N) (drop (f N) xs)"
    using Suc by simp
  also have "drop (f N) xs = drop (f N - f 0) (drop (f 0) xs)"
    using mono by simp
  also have "take (f N - f 0) (drop (f 0) xs)
        @ take (f (Suc N) - f N) (drop (f N - f 0) (drop (f 0) xs))
      = take ((f N - f 0) + (f (Suc N) - f N)) (drop (f 0) xs)"
    by (simp only: take_add)
  also have "(f N - f 0) + (f (Suc N) - f N) = f (Suc N) - f 0"
    using mono step by simp
  finally show ?case .
qed

text \<open>
  For a positive number of batches every index of a slice is in range.
\<close>

lemma chunk_data_nat:
  assumes "0 < N"
  shows "chunk_data data (int N) =
     Inr (map (\<lambda>i. take (chunk_start (length data div N) (length data mod N) (Suc i)
                          - chunk_start (length data div N) (length data mod N) i)
                       (drop (chunk_start (length data div N) (length data mod N) i) data))
            [0..<N])"
proof -
  let ?k = "length data div N" and ?m = "length data mod N"
  have k: "int (length data) div int N = int ?k" by (simp add: zdiv_int)
  have m: "int (length data) mod int N = int ?m" by (simp add: zmod_int)
  have sl: "py_slice data (int i * int ?k + min (int i) (int ?m))
                          ((int i + 1) * int ?k + min (int i + 1) (int ?m))
     = take (chunk_start ?k ?m (Suc i) - chunk_start ?k ?m i) (drop (chunk_start ?k ?m i) data)"
    if "i < N" for i
  proof -
    have a: "int i * int ?k + min (int i) (int ?m) = int (chunk_start ?k ?m i)"
      by (simp add: chunk_start_def)
    have b: "(int i + 1) * int ?k + min (int i + 1) (int ?m) = int (chunk_start ?k ?m (Suc i))"
      by (simp add: chunk_start_def algebra_simps)
    show ?thesis
      unfolding a b using py_slice_nat [OF chunk_start_mono chunk_start_bound [OF that]] .
  qed
  show ?thesis
    using assms sl by (simp add: chunk_data_def py_range_def k m Let_def comp_def)
qed

lemma chunk_data_concat:
  assumes "0 < N"
  shows "\<exists>batches. chunk_data data (int N) = Inr batches \<and> concat batches = data"
proof -
  let ?s = "chunk_start (length data div N) (length data mod N)"
  let ?bs = "map (\<lambda>i. take (?s (Suc i) - ?s i) (drop (?s i) data)) [0..<N]"
  have "concat ?bs = take (?s N - ?s 0) (drop (?s 0) data)"
    by (rule concat_slices) (rule chunk_start_mono)
  then have "concat ?bs = data"
    by (simp add: chunk_start_0 chunk_start_last [OF assms])
  then show ?thesis using chunk_data_nat [OF assms, of data] by simp
qed

text \<open>
  C2. For every list and every number of batches \<open>n \<ge> 1\<close>, \<open>chunk_data\<close> returns
  exactly \<open>n\<close> batches; each has \<open>len div n\<close> or \<open>len div n + 1\<close> elements, the sizes add
  up to the length of the list, and the batches concatenated in order are the list.
\<close>

theorem chunk_data_partitions:
  assumes "1 \<le> n"
  shows "\<exists>batches. chunk_data data n = Inr batches \<and> length batches = nat n \<and>
           (\<forall>batch \<in> set batches.
              int (length batch) = int (length data) div n \<or>
              int (length batch) = int (length data) div n + 1) \<and>
           sum_list (map length batches) = length data \<and>
           concat batches = data"
proof -
  define N where "N = nat n"
  have n: "n = int N" and N: "0 < N" using assms by (simp_all add: N_def)
  let ?k = "length data div N" and ?m = "length data mod N"
  let ?s = "chunk_start ?k ?m"
  let ?bs = "map (\<lambda>i. take (?s (Suc i) - ?s i) (drop (?s i) data)) [0..<N]"
  have eq: "chunk_data data n = Inr ?bs"
    unfolding n by (rule chunk_data_nat [OF N])
  have cat: "concat ?bs = data"
  proof -
    have "concat ?bs = take (?s N - ?s 0) (drop (?s 0) data)"
      by (rule concat_slices) (rule chunk_start_mono)
    then show ?thesis by (simp add: chunk_start_0 chunk_start_last [OF N])
  qed
  have size: "length (take (?s (Suc i) - ?s i) (drop (?s i) data)) = (if i < ?m then ?k + 1 else ?k)"
    if "i < N" for i
  proof -
    have "?s (Suc i) - ?s i \<le> length data - ?s i"
      using chunk_start_bound [OF that, of "length data"] by simp
    then have "length (take (?s (Suc i) - ?s i) (drop (?s i) data)) = ?s (Suc i) - ?s i"
      by simp
    then show ?thesis by (simp only: chunk_start_step)
  qed
  have k: "int (length data) div n = int ?k" by (simp add: n zdiv_int)
  have sizes: "\<forall>batch \<in> set ?bs. int (length batch) = int (length data) div n \<or>
                 int (length batch) = int (length data) div n + 1"
  proof
    fix batch assume "batch \<in> set ?bs"
    then obtain i where i: "i < N" and b: "batch = take (?s (Suc i) - ?s i) (drop (?s i) data)"
      by auto
    show "int (length batch) = int (length data) div n \<or>
          int (length batch) = int (length data) div n + 1"
      unfolding k b size [OF i] by simp
  qed
  have total: "sum_list (map length ?bs) = length data"
    using cat by (metis length_concat)
  have len: "length ?bs = nat n" by (simp add: N_def)
  show ?thesis
    using eq len sizes total cat by blast
qed

text \<open>
  Seven items in three batches: sizes 3, 2, 2.
\<close>

theorem chunk_data_partitions_witness:
  "(1::int) \<le> 3 \<and>
   chunk_data [10, 20, 30, 40, 50, 60, 70 :: nat] 3 = Inr [[10, 20, 30], [40, 50], [60, 70]] \<and>
   (\<exists>batches. chunk_data [10, 20, 30, 40, 50, 60, 70 :: nat] 3 = Inr batches \<and>
      length batches = 3 \<and> concat batches = [10, 20, 30, 40, 50, 60, 70])"
proof -
  have h: "(1::int) \<le> 3" by simp
  have ev: "chunk_data [10, 20, 30, 40, 50, 60, 70 :: nat] 3
              = Inr [[10, 20, 30], [40, 50], [60, 70]]"
    by (simp add: chunk_data_def py_range_def py_slice_def slice_index_def upt_rec)
  show ?thesis
    using h ev chunk_data_partitions [OF h, of "[10, 20, 30, 40, 50, 60, 70 :: nat]"] by simp
qed

section \<open>Reading the input\<close>

lemma py_int_examples:
  "py_int '' -1_204 '' = Some (- 1204)" "py_int ''0042'' = Some 42" "py_int ''12a'' = None"
  "py_int ''1__2'' = None" "py_int ''+'' = None" "py_int [] = None" "py_int ''_1'' = None"
  "py_int ''1_'' = None" "py_int [CHR 0x85, CHR ''7'', CHR 0xA0] = Some 7"
  "py_int [CHR 0x1C, CHR ''7''] = None" "py_int [CHR ''7'', CHR 0x1F] = None"
  by (simp_all add: py_int_def int_strip_def int_space_def isdigit_def digit_val_def
        max_str_digits_def)

text \<open>A string of more digits than the limit is no integer, whatever the digits.\<close>

lemma py_int_too_long:
  assumes "max_str_digits < length (filter isdigit s)"
  shows "py_int s = None"
proof -
  let ?t = "int_strip s"
  let ?body = "case ?t of [] \<Rightarrow> [] | c # r \<Rightarrow> if c = CHR ''-'' \<or> c = CHR ''+'' then r else ?t"
  have digit_no_space: "\<not> int_space c" if "isdigit c" for c
    using that by (auto simp: isdigit_def int_space_def)
  have drop: "filter isdigit (dropWhile int_space xs) = filter isdigit xs" for xs
    by (induction xs) (auto dest: digit_no_space)
  have "filter isdigit ?t = rev (filter isdigit (dropWhile int_space (rev (dropWhile int_space s))))"
    by (simp add: int_strip_def rev_filter)
  also have "\<dots> = filter isdigit (dropWhile int_space s)"
    by (simp add: drop rev_filter)
  also have "\<dots> = filter isdigit s"
    by (rule drop)
  finally have t: "filter isdigit ?t = filter isdigit s" .
  have sign: "\<not> isdigit (CHR ''-'')" "\<not> isdigit (CHR ''+'')"
    by (simp_all add: isdigit_def)
  have "filter isdigit ?body = filter isdigit ?t"
    by (cases ?t) (auto simp: sign)
  then have "max_str_digits < length (filter isdigit ?body)"
    using assms t by simp
  then show ?thesis
    by (auto simp: py_int_def Let_def split: list.splits)
qed

lemma parse_row_iff:
  "(parse_row row = Inr p) = (second_and_third_column row = Some p)"
  by (auto simp: parse_row_def second_and_third_column_def split: option.splits)

lemma read_rows_acc:
  "fst (read_rows rows acc sh) = acc @ List.map_filter second_and_third_column rows"
proof (induction rows arbitrary: acc sh)
  case Nil
  then show ?case by (simp add: List.map_filter_simps)
next
  case (Cons row rows)
  show ?case
  proof (cases "parse_row row")
    case (Inl msg)
    then have "second_and_third_column row = None"
      using parse_row_iff [of row] by (cases "second_and_third_column row") auto
    then show ?thesis using Inl Cons.IH by (simp add: List.map_filter_simps)
  next
    case (Inr p)
    then have "second_and_third_column row = Some p" by (simp add: parse_row_iff)
    then show ?thesis using Inr Cons.IH by (simp add: List.map_filter_simps)
  qed
qed

lemma read_total:
  "total_urls (snd (read_id_url_pairs_from_csv (Inr rows) sh)) = length (fst (read_rows rows [] sh))"
  by (simp add: read_id_url_pairs_from_csv_def Let_def split: prod.splits)

lemma read_rows_frame:
  "scraped_count (snd (read_rows rows acc sh)) = scraped_count sh"
  by (induction rows arbitrary: acc sh) (auto split: sum.splits)



lemma parse_row_sample: "parse_row [''0'', ''7'', ''http://a''] = Inr (7, ''http://a'')"
  by (simp add: parse_row_def py_int_def int_strip_def int_space_def isdigit_def digit_val_def
        max_str_digits_def)

lemma read_rows_replicate:
  assumes "parse_row row = Inr p"
  shows "read_rows (replicate n row) acc sh = (acc @ replicate n p, sh)"
  using assms
  by (induction n arbitrary: acc) (simp_all add: replicate_app_Cons_same)

text \<open>
  C10. The reader takes the id of a row from its second field and the url from its
  third; the pairs it keeps, and \<open>total_urls\<close>, are those of the rows with three fields or
  more whose second field is an integer. The first field has no part in whether a row is
  kept, or as what. A row of exactly two fields is dropped: as not an integer when its
  second field is none, and otherwise with the message that asks for two columns.
\<close>

theorem read_takes_second_and_third_column:
  "fst (read_rows rows [] sh) = List.map_filter second_and_third_column rows \<and>
   total_urls (snd (read_id_url_pairs_from_csv (Inr rows) sh))
     = length (List.map_filter second_and_third_column rows) \<and>
   (parse_row (c # cols) = Inr p) = (parse_row (c' # cols) = Inr p) \<and>
   (length row = 2 \<longrightarrow>
      parse_row row = Inl (if py_int (row ! 1) = None then ErrorRowNotInt row else ErrorRowColumns row))"
proof -
  have a: "fst (read_rows rows [] sh) = List.map_filter second_and_third_column rows"
    using read_rows_acc [of rows "[]" sh] by simp
  have b: "total_urls (snd (read_id_url_pairs_from_csv (Inr rows) sh))
     = length (List.map_filter second_and_third_column rows)"
    by (simp only: read_total a)
  have "second_and_third_column (c # cols) = second_and_third_column (c' # cols)"
    by (simp add: second_and_third_column_def numeral_2_eq_2)
  then have c: "(parse_row (c # cols) = Inr p) = (parse_row (c' # cols) = Inr p)"
    by (simp only: parse_row_iff)
  have d: "length row = 2 \<longrightarrow>
      parse_row row = Inl (if py_int (row ! 1) = None then ErrorRowNotInt row else ErrorRowColumns row)"
    by (auto simp: parse_row_def split: option.splits)
  show ?thesis using a b c d by blast
qed

text \<open>
  Six rows: a good one, one of two fields, one whose id is a letter, an empty one, one
  with a fourth field and blanks around the id, and one whose id follows the separator
  U+001C, which \<open>int\<close> does not take for a blank.
\<close>

theorem read_takes_second_and_third_column_witness:
  "length [''0'', ''7''] = 2 \<and>
   parse_row [''0'', ''7''] = Inl (ErrorRowColumns [''0'', ''7'']) \<and>
   fst (read_rows [[''0'', ''7'', ''http://a''], [''0'', ''7''], [''1'', ''x'', ''http://b''], [],
                   [''2'', '' 12 '', ''http://c'', ''more''],
                   [''3'', [CHR 0x1C, CHR ''7''], ''http://d'']] [] (initial [] []))
     = [(7, ''http://a''), (12, ''http://c'')]"
  using read_takes_second_and_third_column
    [of "[[''0'', ''7'', ''http://a''], [''0'', ''7''], [''1'', ''x'', ''http://b''], [],
          [''2'', '' 12 '', ''http://c'', ''more''],
          [''3'', [CHR 0x1C, CHR ''7''], ''http://d'']]" "initial [] []" _ _ _ _ "[''0'', ''7'']"]
  by (simp add: List.map_filter_simps second_and_third_column_def py_int_def int_strip_def
       int_space_def isdigit_def digit_val_def max_str_digits_def)

section \<open>The number of batches\<close>

lemma num_chunks_0: "num_chunks 0 = 0"
  by (simp add: num_chunks_def int_of_float_def)

text \<open>
  The integer part of \<open>2 * sqrt (128 * len)\<close> is the integer square root of \<open>4 * 128 * len\<close>.
\<close>

lemma num_chunks_eq:
  assumes "m * m \<le> 4 * (len * MAX_WORKERS)" and "4 * (len * MAX_WORKERS) < Suc m * Suc m"
  shows "num_chunks len = int m"
proof -
  let ?y = "real (4 * (len * MAX_WORKERS))"
  have eq: "sqrt (real (len * MAX_WORKERS)) * 2 = sqrt ?y"
    by (simp add: real_sqrt_mult)
  have lo: "real m \<le> sqrt ?y"
  proof (rule real_le_rsqrt)
    have "real (m * m) \<le> ?y" using assms(1) by (simp only: of_nat_le_iff)
    then show "(real m)\<^sup>2 \<le> ?y" by (simp only: power2_eq_square of_nat_mult)
  qed
  have hi: "sqrt ?y < real (Suc m)"
  proof (rule real_less_lsqrt)
    show "0 \<le> real (Suc m)" by simp
    have "?y < real (Suc m * Suc m)" using assms(2) by (simp only: of_nat_less_iff)
    then show "?y < (real (Suc m))\<^sup>2" by (simp only: power2_eq_square of_nat_mult)
  qed
  have "\<lfloor>sqrt ?y\<rfloor> = int m"
    by (rule floor_unique) (use lo hi in simp_all)
  moreover have "0 \<le> sqrt ?y" by simp
  ultimately show ?thesis
    by (simp only: num_chunks_def eq int_of_float_def if_True)
qed



lemma num_chunks_513: "num_chunks 513 = 512"
  using num_chunks_eq [of 512 513] by (simp add: MAX_WORKERS_def)

lemma num_chunks_pos:
  assumes "0 < len"
  shows "1 \<le> num_chunks len"
proof -
  have "1 \<le> real (len * MAX_WORKERS)" using assms by (simp add: MAX_WORKERS_def)
  then have "1 \<le> sqrt (real (len * MAX_WORKERS))" by (simp only: real_sqrt_ge_one)
  then have "1 \<le> sqrt (real (len * MAX_WORKERS)) * 2" by linarith
  then show ?thesis by (simp add: num_chunks_def int_of_float_def le_floor_iff)
qed

section \<open>Progress\<close>

lemma update_progress_frame:
  "scraped_count (update_progress fl t sh) = scraped_count sh + 1"
  "total_urls (update_progress fl t sh) = total_urls sh"
  "result_file (update_progress fl t sh) = result_file sh"
  "error_file (update_progress fl t sh) = error_file sh"
  by (simp_all add: update_progress_def Let_def)

text \<open>
  C8, as the code has it. The \<open>finally\<close> block adds one to the counter. It logs the
  estimate when the new count is a multiple of 10, and only then: the integer part of
  the float product of the average (the float quotient of the elapsed time by the new
  count) and the number of items left. When the new count is
  \<open>total_urls\<close> it logs that all URLs are scraped, which is another message.
\<close>

theorem eta_logged_on_multiples_of_ten:
  "scraped_count (update_progress fl elapsed_time sh) = scraped_count sh + 1 \<and>
   (\<exists>entries. log (update_progress fl elapsed_time sh) = log sh @ entries \<and>
      ((\<exists>c n eta. InfoProgress c n eta \<in> set entries) \<longleftrightarrow> (scraped_count sh + 1) mod 10 = 0) \<and>
      (\<forall>c n eta. InfoProgress c n eta \<in> set entries \<longrightarrow>
         c = scraped_count sh + 1 \<and> n = total_urls sh \<and>
         eta = int_of_float (float_mul fl (float_div fl elapsed_time c) (int n - int c))) \<and>
      (InfoAllScraped \<in> set entries \<longleftrightarrow> scraped_count sh + 1 = total_urls sh))"
proof -
  let ?c = "scraped_count sh + 1"
  let ?eta = "int_of_float (float_mul fl (float_div fl elapsed_time ?c) (int (total_urls sh) - int ?c))"
  let ?entries = "(if ?c mod 10 = 0 then [InfoProgress ?c (total_urls sh) ?eta] else [])
                  @ (if ?c = total_urls sh then [InfoAllScraped] else [])"
  have l: "log (update_progress fl elapsed_time sh) = log sh @ ?entries"
    by (auto simp: update_progress_def Let_def)
  have p: "(\<exists>c n eta. InfoProgress c n eta \<in> set ?entries) \<longleftrightarrow> ?c mod 10 = 0"
    by auto
  have v: "\<forall>c n eta. InfoProgress c n eta \<in> set ?entries \<longrightarrow>
         c = ?c \<and> n = total_urls sh \<and>
         eta = int_of_float (float_mul fl (float_div fl elapsed_time c) (int n - int c))"
    by (auto split: if_splits)
  have a: "InfoAllScraped \<in> set ?entries \<longleftrightarrow> ?c = total_urls sh"
    by auto
  have c: "scraped_count (update_progress fl elapsed_time sh) = ?c"
    by (simp add: update_progress_frame)
  show ?thesis
  proof (intro conjI exI [of _ ?entries])
    show "scraped_count (update_progress fl elapsed_time sh) = ?c" by (fact c)
    show "log (update_progress fl elapsed_time sh) = log sh @ ?entries" by (fact l)
    show "(\<exists>c n eta. InfoProgress c n eta \<in> set ?entries) \<longleftrightarrow> ?c mod 10 = 0" by (fact p)
    show "\<forall>c n eta. InfoProgress c n eta \<in> set ?entries \<longrightarrow>
         c = ?c \<and> n = total_urls sh \<and>
         eta = int_of_float (float_mul fl (float_div fl elapsed_time c) (int n - int c))" by (fact v)
    show "InfoAllScraped \<in> set ?entries \<longleftrightarrow> ?c = total_urls sh" by (fact a)
  qed
qed

text \<open>
  The tenth item of thirty after 45 seconds: 90 seconds left.
\<close>

theorem eta_logged_on_multiples_of_ten_witness:
  "scraped_count (update_progress sample_floats 45
      \<lparr>scraped_count = 9, total_urls = 30, result_file = [], error_file = [], log = []\<rparr>) = 10 \<and>
   log (update_progress sample_floats 45
      \<lparr>scraped_count = 9, total_urls = 30, result_file = [], error_file = [], log = []\<rparr>)
     = [InfoProgress 10 30 90] \<and>
   InfoProgress 10 30 90 \<in> set [InfoProgress 10 30 90] \<and>
   (90::int) = int_of_float (float_mul sample_floats (float_div sample_floats 45 10) (int 30 - int 10))"
proof -
  have l: "log (update_progress sample_floats 45
      \<lparr>scraped_count = 9, total_urls = 30, result_file = [], error_file = [], log = []\<rparr>)
     = [InfoProgress 10 30 90]"
    by (simp add: update_progress_def Let_def int_of_float_def sample_floats_def)
  show ?thesis
    using l eta_logged_on_multiples_of_ten
      [of sample_floats 45 "\<lparr>scraped_count = 9, total_urls = 30, result_file = [], error_file = [], log = []\<rparr>"]
    by (simp add: int_of_float_def sample_floats_def)
qed

text \<open>
  C8 as stated fails: the third item of three makes the count equal to the total, and
  the only line logged is the one that says all URLs are scraped.
\<close>

theorem eta_at_total_counterexample:
  "scraped_count \<lparr>scraped_count = 2, total_urls = 3, result_file = [], error_file = [], log = []\<rparr> + 1
     = total_urls \<lparr>scraped_count = 2, total_urls = 3, result_file = [], error_file = [], log = []\<rparr> \<and>
   update_progress sample_floats 6 \<lparr>scraped_count = 2, total_urls = 3, result_file = [], error_file = [], log = []\<rparr>
     = \<lparr>scraped_count = 3, total_urls = 3, result_file = [], error_file = [], log = [InfoAllScraped]\<rparr>"
  by (simp add: update_progress_def Let_def)

section \<open>One item\<close>

lemma try_item_ok:
  assumes "eio = None"
  shows "\<exists>sh1. try_item resp eio row results sh = (None, results @ [item_outcome resp row], sh1) \<and>
           scraped_count sh1 = scraped_count sh \<and> total_urls sh1 = total_urls sh \<and>
           result_file sh1 = result_file sh \<and>
           error_file sh1 = error_file sh @ item_error_rows resp row"
  using assms
  by (cases resp)
     (auto simp: try_item_def item_outcome_def item_error_rows_def log_error_to_csv_def Let_def
           split: option.splits)

lemma scrape_item_ok:
  assumes "eio = None"
  shows "\<exists>sh1. scrape_item resp eio fl t row results sh = (None, results @ [item_outcome resp row], sh1) \<and>
           scraped_count sh1 = scraped_count sh + 1 \<and> total_urls sh1 = total_urls sh \<and>
           result_file sh1 = result_file sh \<and>
           error_file sh1 = error_file sh @ item_error_rows resp row"
proof -
  obtain sh0 where t: "try_item resp eio row results sh = (None, results @ [item_outcome resp row], sh0)"
    and f: "scraped_count sh0 = scraped_count sh" "total_urls sh0 = total_urls sh"
       "result_file sh0 = result_file sh" "error_file sh0 = error_file sh @ item_error_rows resp row"
    using try_item_ok [OF assms] by blast
  show ?thesis
    by (simp add: scrape_item_def t update_progress_frame f)
qed



section \<open>One batch\<close>

text \<open>
  While the error file can be written, the loop goes through the whole batch: one
  entry of \<open>results\<close> per item, one row of the error file per failed fetch, one step of
  the counter per item.
\<close>

lemma scrape_loop_ok:
  assumes "\<forall>j<length rows. error_sink_io w b (i + j) = None"
  shows "\<exists>sh1. scrape_loop w b i rows results sh =
             (Inr (results @ map (\<lambda>(j, row). item_outcome (fetch w b j) row) (List.enumerate i rows)), sh1) \<and>
           scraped_count sh1 = scraped_count sh + length rows \<and> total_urls sh1 = total_urls sh \<and>
           result_file sh1 = result_file sh \<and>
           error_file sh1 = error_file sh @
             concat (map (\<lambda>(j, row). item_error_rows (fetch w b j) row) (List.enumerate i rows))"
  using assms
proof (induction rows arbitrary: i results sh)
  case Nil
  then show ?case by simp
next
  case (Cons row rest)
  have e0: "error_sink_io w b i = None" using Cons.prems by force
  obtain sh0 where s: "scrape_item (fetch w b i) (error_sink_io w b i) (floats w) (clock w b i) row results sh
        = (None, results @ [item_outcome (fetch w b i) row], sh0)"
    and f: "scraped_count sh0 = scraped_count sh + 1" "total_urls sh0 = total_urls sh"
       "result_file sh0 = result_file sh"
       "error_file sh0 = error_file sh @ item_error_rows (fetch w b i) row"
    using scrape_item_ok [OF e0] by blast
  have rest: "\<forall>j<length rest. error_sink_io w b (Suc i + j) = None"
  proof (intro allI impI)
    fix j assume "j < length rest"
    then have "Suc j < length (row # rest)" by simp
    then have "error_sink_io w b (i + Suc j) = None" using Cons.prems by blast
    then show "error_sink_io w b (Suc i + j) = None" by simp
  qed
  obtain sh1 where l: "scrape_loop w b (Suc i) rest (results @ [item_outcome (fetch w b i) row]) sh0 =
             (Inr ((results @ [item_outcome (fetch w b i) row]) @
                map (\<lambda>(j, row). item_outcome (fetch w b j) row) (List.enumerate (Suc i) rest)), sh1)"
    and g: "scraped_count sh1 = scraped_count sh0 + length rest" "total_urls sh1 = total_urls sh0"
       "result_file sh1 = result_file sh0"
       "error_file sh1 = error_file sh0 @
             concat (map (\<lambda>(j, row). item_error_rows (fetch w b j) row) (List.enumerate (Suc i) rest))"
    using Cons.IH [OF rest] by blast
  show ?case
    by (simp add: s l f g)
qed

lemma save_to_csv_frame:
  "scraped_count (save_to_csv io data sh) = scraped_count sh"
  "total_urls (save_to_csv io data sh) = total_urls sh"
  "error_file (save_to_csv io data sh) = error_file sh"
  by (simp_all add: save_to_csv_def split: option.splits)

lemma scrape_urls_returns:
  assumes "\<forall>i<length data. error_sink_io w b i = None"
  shows "fst (scrape_urls w b data sh) = Inr ''Scraping complete'' \<and>
         scraped_count (snd (scrape_urls w b data sh)) = scraped_count sh + length data \<and>
         total_urls (snd (scrape_urls w b data sh)) = total_urls sh"
proof -
  have "\<forall>j<length data. error_sink_io w b (0 + j) = None" using assms by simp
  from scrape_loop_ok [OF this, of "[]" sh]
  obtain sh0 where l: "scrape_loop w b 0 data [] sh =
             (Inr (map (\<lambda>(j, row). item_outcome (fetch w b j) row) (List.enumerate 0 data)), sh0)"
    and f: "scraped_count sh0 = scraped_count sh + length data" "total_urls sh0 = total_urls sh"
    by auto
  show ?thesis
    by (simp add: scrape_urls_def l f save_to_csv_frame)
qed

text \<open>
  When the fetch of the first item fails and the error file cannot be opened, the batch
  ends there, after the counter has been stepped once.
\<close>

lemma scrape_urls_aborts:
  assumes "fetch w b 0 = Raises e" and "error_sink_io w b 0 = Some m"
  shows "fst (scrape_urls w b (row # rest) sh) = Inl (OSError m) \<and>
         scraped_count (snd (scrape_urls w b (row # rest) sh)) = scraped_count sh + 1 \<and>
         total_urls (snd (scrape_urls w b (row # rest) sh)) = total_urls sh"
  using assms
  by (simp add: scrape_urls_def scrape_item_def try_item_def log_error_to_csv_def
        update_progress_frame Let_def)



text \<open>
  C1, as the code has it. When the error file and the result file can be written,
  \<open>scrape_urls\<close> returns and has added to the result file exactly one row per item of
  the batch, in order: the id with the description, or with \<open>None\<close> when there is none,
  when it is short, and also when the fetch failed. To the error file it has added one
  row (id, url, message) for each item whose fetch failed and none for the others. So a
  failed item has a row in both files, and every other item a row in the result file
  only.
\<close>

theorem one_result_row_per_item:
  assumes "\<forall>i<length data. error_sink_io w b i = None" and "result_sink_io w b = None"
  shows "\<exists>sh1. scrape_urls w b data sh = (Inr ''Scraping complete'', sh1) \<and>
      result_file sh1 = result_file sh @
         map (\<lambda>(i, row). outcome_row (item_outcome (fetch w b i) row)) (List.enumerate 0 data) \<and>
      error_file sh1 = error_file sh @
         concat (map (\<lambda>(i, row). item_error_rows (fetch w b i) row) (List.enumerate 0 data))"
proof -
  have "\<forall>j<length data. error_sink_io w b (0 + j) = None" using assms(1) by simp
  from scrape_loop_ok [OF this, of "[]" sh]
  obtain sh0 where l: "scrape_loop w b 0 data [] sh =
             (Inr (map (\<lambda>(j, row). item_outcome (fetch w b j) row) (List.enumerate 0 data)), sh0)"
    and f: "result_file sh0 = result_file sh"
       "error_file sh0 = error_file sh @
             concat (map (\<lambda>(j, row). item_error_rows (fetch w b j) row) (List.enumerate 0 data))"
    by auto
  show ?thesis
    by (simp add: scrape_urls_def l f save_to_csv_def assms(2) comp_def case_prod_unfold)
qed

text \<open>
  The first two items of the example of the specification.
\<close>

theorem one_result_row_per_item_witness:
  "error_sink_io spec_example_env 0 0 = None \<and> error_sink_io spec_example_env 0 1 = None \<and>
   result_sink_io spec_example_env 0 = None \<and>
   result_file (snd (scrape_urls spec_example_env 0 [(1, ''http://a''), (2, ''http://b'')] (initial [] [])))
     = [[CInt 1, CStr ''The tale of two brothers and of the sea between them.''], [CInt 2, CNone]] \<and>
   error_file (snd (scrape_urls spec_example_env 0 [(1, ''http://a''), (2, ''http://b'')] (initial [] [])))
     = [[CInt 2, CStr ''http://b'', CStr ''timeout'']]"
proof -
  have h1: "\<forall>i<length [(1::int, ''http://a''), (2, ''http://b'')]. error_sink_io spec_example_env 0 i = None"
    by (simp add: spec_example_env_def)
  have h2: "result_sink_io spec_example_env 0 = None"
    by (simp add: spec_example_env_def)
  have f: "fetch spec_example_env 0 0 = Page (Some ''  The tale of two brothers and of the sea between them. '')"
          "fetch spec_example_env 0 (Suc 0) = Raises ''timeout''"
    by (simp_all add: spec_example_env_def)
  have e: "error_sink_io spec_example_env 0 0 = None" "error_sink_io spec_example_env 0 1 = None"
    by (simp_all add: spec_example_env_def)
  show ?thesis
    using e h2 one_result_row_per_item [OF h1 h2, of "initial [] []"]
    by (auto simp: f initial_def item_outcome_def item_error_rows_def outcome_row_def strip_def isspace_def
          List.enumerate_eq_zip upt_rec)
qed

text \<open>
  C1 as stated fails on the example of the specification: the fetch of item 2 times
  out, and item 2 has a row in the error file and the row \<open>(2, None)\<close> in the result
  file.
\<close>

theorem failed_item_gets_both_rows_counterexample:
  "fetch spec_example_env 0 1 = Raises ''timeout'' \<and>
   result_file (snd (scrape_urls spec_example_env 0
      [(1, ''http://a''), (2, ''http://b''), (3, ''http://c'')] (initial [] [])))
     = [[CInt 1, CStr ''The tale of two brothers and of the sea between them.''],
        [CInt 2, CNone], [CInt 3, CNone]] \<and>
   error_file (snd (scrape_urls spec_example_env 0
      [(1, ''http://a''), (2, ''http://b''), (3, ''http://c'')] (initial [] [])))
     = [[CInt 2, CStr ''http://b'', CStr ''timeout'']]"
  by (simp add: scrape_urls_def scrape_item_def try_item_def update_progress_def
      log_error_to_csv_def save_to_csv_def spec_example_env_def initial_def strip_def isspace_def
      outcome_row_def Let_def)






text \<open>
  C3 at its failing input. The fetch of the first of two items times out and the error
  file cannot be opened: \<open>OSError\<close> leaves \<open>scrape_urls\<close>, and the second item is never
  processed (the counter is at 1 and the log has no line for it).
\<close>

theorem error_sink_failure_aborts_batch:
  "scrape_urls (error_sink_down_at 0) 0 [(1, ''http://a''), (2, ''http://b'')] (initial [] [])
   = (Inl (OSError ''disk full''),
      \<lparr>scraped_count = 1, total_urls = 0, result_file = [], error_file = [],
       log = [ErrorScraping ''http://a'' 1 ''timeout'']\<rparr>)"
  by (simp add: scrape_urls_def scrape_item_def try_item_def update_progress_def
      log_error_to_csv_def error_sink_down_at_def initial_def Let_def)

text \<open>
  C6 at its failing input. The fetch of the second of three items times out and the
  error file cannot be opened: \<open>OSError\<close> leaves \<open>scrape_urls\<close>, nothing in the log
  reports it, the third item is never processed and the outcomes of the first two never
  reach the result file. The same failure on the result file is logged by
  \<open>save_to_csv\<close>, which returns.
\<close>

theorem error_sink_failure_loses_batch:
  "scrape_urls (error_sink_down_at 1) 0
      [(1, ''http://a''), (2, ''http://b''), (3, ''http://c'')] (initial [] [])
   = (Inl (OSError ''disk full''),
      \<lparr>scraped_count = 2, total_urls = 0, result_file = [], error_file = [],
       log = [WarnNoDescription 1 ''http://a'', ErrorScraping ''http://b'' 2 ''timeout'']\<rparr>) \<and>
   save_to_csv (Some ''disk full'') [(1, None), (2, None)] (initial [] [])
   = \<lparr>scraped_count = 0, total_urls = 0, result_file = [], error_file = [],
       log = [ErrorSaving [1, 2] ''disk full'']\<rparr>"
  by (simp add: scrape_urls_def scrape_item_def try_item_def update_progress_def
      log_error_to_csv_def save_to_csv_def error_sink_down_at_def initial_def Let_def)

section \<open>All batches\<close>

lemma run_batches_count:
  assumes "\<forall>c i. b \<le> c \<longrightarrow> error_sink_io w c i = None"
  shows "scraped_count (run_batches w b batches sh) = scraped_count sh + length (concat batches) \<and>
         total_urls (run_batches w b batches sh) = total_urls sh"
  using assms
proof (induction batches arbitrary: b sh)
  case Nil
  then show ?case by simp
next
  case (Cons data rest)
  have here: "\<forall>i<length data. error_sink_io w b i = None" using Cons.prems by simp
  have later: "\<forall>c i. Suc b \<le> c \<longrightarrow> error_sink_io w c i = None" using Cons.prems by simp
  show ?case
    using scrape_urls_returns [OF here, of sh] Cons.IH [OF later, of "snd (scrape_urls w b data sh)"]
    by simp
qed


lemma chunk_513:
  "\<exists>rest. chunk_data (replicate 513 p) 512 = Inr ([p, p] # rest) \<and> length (concat rest) = 511"
proof -
  define data where "data = replicate 513 p"
  define F where "F = (\<lambda>i. take (chunk_start (length data div 512) (length data mod 512) (Suc i)
                          - chunk_start (length data div 512) (length data mod 512) i)
                       (drop (chunk_start (length data div 512) (length data mod 512) i) data))"
  have len_data: "length data = 513" by (simp add: data_def)
  have c: "chunk_data data (int 512) = Inr (map F [0..<512])"
    unfolding F_def by (rule chunk_data_nat) simp
  have split: "[0..<512] = 0 # [Suc 0..<512]"
    by (rule upt_conv_Cons) simp
  have two: "replicate 2 p = [p, p]"
    by (simp add: numeral_2_eq_2)
  have first: "F 0 = [p, p]"
    by (simp add: F_def len_data chunk_start_def data_def two)
  obtain batches where b: "chunk_data data (int 512) = Inr batches" and cat: "concat batches = data"
    using chunk_data_concat [of 512 data] by auto
  have batches: "batches = F 0 # map F [Suc 0..<512]"
    using b c by (simp only: split list.map) simp
  have "length (concat batches) = 513"
    by (simp only: cat len_data)
  then have "length (F 0) + length (concat (map F [Suc 0..<512])) = 513"
    by (simp only: batches concat.simps length_append)
  then have len: "length (concat (map F [Suc 0..<512])) = 511"
    by (simp only: first) simp
  have "chunk_data (replicate 513 p) 512 = Inr ([p, p] # map F [Suc 0..<512])"
    using b by (simp only: batches first data_def) simp
  then show ?thesis using len by blast
qed

text \<open>
  While the error file can be written, the counter ends at \<open>total_urls\<close>, the number
  of rows kept by the reader.
\<close>

lemma counter_reaches_total:
  assumes "\<forall>b i. error_sink_io w b i = None" and "header_io w = None" and "1 \<le> max_workers"
    and "List.map_filter second_and_third_column rows \<noteq> []"
  shows "scraped_count (snd (main w (Inr rows) max_workers (initial results errors)))
           = length (List.map_filter second_and_third_column rows) \<and>
         total_urls (snd (main w (Inr rows) max_workers (initial results errors)))
           = length (List.map_filter second_and_third_column rows)"
proof -
  let ?pairs = "List.map_filter second_and_third_column rows"
  let ?s0 = "initial results errors"
  obtain pairs sh1 where r: "read_rows rows [] ?s0 = (pairs, sh1)" by (cases "read_rows rows [] ?s0")
  have pairs: "pairs = ?pairs" using read_rows_acc [of rows "[]" ?s0] r by simp
  have c1: "scraped_count sh1 = 0" using read_rows_frame [of rows "[]" ?s0] r by (simp add: initial_def)
  have pos: "0 < length ?pairs" using assms(4) by simp
  define N where "N = nat (num_chunks (length ?pairs))"
  have N: "0 < N" "num_chunks (length ?pairs) = int N"
    using num_chunks_pos [OF pos] by (simp_all add: N_def)
  obtain batches where ch: "chunk_data ?pairs (int N) = Inr batches" and cat: "concat batches = ?pairs"
    using chunk_data_concat [OF N(1), of ?pairs] by blast
  define sh3 where "sh3 = sh1\<lparr>log := log sh1 @ [InfoRead (length ?pairs)], total_urls := length ?pairs\<rparr>"
  have rd: "read_id_url_pairs_from_csv (Inr rows) ?s0 = (Inr batches, sh3)"
    by (simp add: read_id_url_pairs_from_csv_def r pairs N(2) ch sh3_def Let_def)
  define sh4 where "sh4 = (write_header sh3)\<lparr>log := log (write_header sh3) @ [InfoInitiated]\<rparr>"
  have sh4: "scraped_count sh4 = 0" "total_urls sh4 = length ?pairs"
    by (simp_all add: sh4_def sh3_def write_header_def c1)
  have m: "main w (Inr rows) max_workers ?s0 = (None, run_batches w 0 batches sh4)"
    using assms(2,3) by (simp add: main_def rd sh4_def Let_def)
  have "\<forall>c i. 0 \<le> c \<longrightarrow> error_sink_io w c i = None" using assms(1) by simp
  from run_batches_count [OF this, of batches sh4]
  show ?thesis by (simp add: m sh4 cat)
qed

text \<open>
  C4 at its failing input. 513 rows make 512 batches, the first of two items. The
  fetch of its first item times out and the error file cannot be opened, so the batch
  ends before its second item: \<open>main\<close> returns with the counter at 512 of 513.
\<close>

theorem counter_stops_short_of_total:
  "fst (main (error_sink_down_at 0) (Inr (replicate 513 [''0'', ''7'', ''http://a''])) 1 (initial [] []))
     = None \<and>
   total_urls (snd (main (error_sink_down_at 0) (Inr (replicate 513 [''0'', ''7'', ''http://a''])) 1
                      (initial [] []))) = 513 \<and>
   scraped_count (snd (main (error_sink_down_at 0) (Inr (replicate 513 [''0'', ''7'', ''http://a''])) 1
                      (initial [] []))) = 512"
proof -
  let ?w = "error_sink_down_at 0"
  let ?p = "(7::int, ''http://a'')"
  obtain rest where ch: "chunk_data (replicate 513 ?p) 512 = Inr ([?p, ?p] # rest)"
    and len: "length (concat rest) = 511"
    using chunk_513 [of ?p] by blast
  define sh3 where "sh3 = (initial [] [])\<lparr>log := [InfoRead 513], total_urls := 513\<rparr>"
  have rd: "read_id_url_pairs_from_csv (Inr (replicate 513 [''0'', ''7'', ''http://a''])) (initial [] [])
      = (Inr ([?p, ?p] # rest), sh3)"
    by (simp add: read_id_url_pairs_from_csv_def read_rows_replicate [OF parse_row_sample]
          num_chunks_513 ch sh3_def initial_def)
  define sh4 where "sh4 = (write_header sh3)\<lparr>log := log (write_header sh3) @ [InfoInitiated]\<rparr>"
  have sh4: "scraped_count sh4 = 0" "total_urls sh4 = 513"
    by (simp_all add: sh4_def sh3_def write_header_def initial_def)
  have m: "main ?w (Inr (replicate 513 [''0'', ''7'', ''http://a''])) 1 (initial [] [])
      = (None, run_batches ?w 1 rest (snd (scrape_urls ?w 0 [?p, ?p] sh4)))"
    by (simp add: main_def rd sh4_def Let_def error_sink_down_at_def)
  have f0: "fetch ?w 0 0 = Raises ''timeout''" and e0: "error_sink_io ?w 0 0 = Some ''disk full''"
    by (simp_all add: error_sink_down_at_def)
  have first: "scraped_count (snd (scrape_urls ?w 0 [?p, ?p] sh4)) = 1"
              "total_urls (snd (scrape_urls ?w 0 [?p, ?p] sh4)) = 513"
    using scrape_urls_aborts [OF f0 e0, of ?p "[?p]" sh4] sh4 by simp_all
  have later: "\<forall>c i. 1 \<le> c \<longrightarrow> error_sink_io ?w c i = None"
    by (simp add: error_sink_down_at_def)
  have "scraped_count (run_batches ?w 1 rest (snd (scrape_urls ?w 0 [?p, ?p] sh4))) = 512"
       "total_urls (run_batches ?w 1 rest (snd (scrape_urls ?w 0 [?p, ?p] sh4))) = 513"
    using run_batches_count [OF later, of rest "snd (scrape_urls ?w 0 [?p, ?p] sh4)"] first len
    by simp_all
  then show ?thesis by (simp add: m)
qed

text \<open>
  C5 at its failing input. On an input without rows \<open>total_urls\<close> is 0 and no file is
  written, but the number of batches is 0 and \<open>chunk_data\<close> divides by it:
  \<open>ZeroDivisionError\<close> leaves \<open>main\<close>.
\<close>

theorem main_empty_input_raises:
  "main w (Inr []) max_workers (initial results errors)
     = (Some ZeroDivisionError,
        \<lparr>scraped_count = 0, total_urls = 0, result_file = results, error_file = errors,
          log = [InfoRead 0]\<rparr>)"
  by (simp add: main_def read_id_url_pairs_from_csv_def chunk_data_def num_chunks_0 initial_def)

section \<open>The header of the result file\<close>














end
